theory Spec2Isabelle
  imports Complex_Main
begin

section \<open>The shared models (src/lib/models.ts)\<close>

text \<open>
  \<open>ClusteringStep\<close> is a union of nine string literals. Each constructor stands for
  one literal; \<open>step_name\<close> gives the literal, and \<open>ClusteringStep_members\<close> lists the
  members in the order in which the type declaration writes them.
\<close>

datatype ClusteringStep =
    Step_start
  | Step_process_input_file
  | Step_load_model
  | Step_embed_responses
  | Step_detect_outliers
  | Step_auto_cluster_count
  | Step_cluster
  | Step_merge
  | Step_save

fun step_name :: "ClusteringStep \<Rightarrow> string" where
  "step_name Step_start = ''start''"
| "step_name Step_process_input_file = ''process_input_file''"
| "step_name Step_load_model = ''load_model''"
| "step_name Step_embed_responses = ''embed_responses''"
| "step_name Step_detect_outliers = ''detect_outliers''"
| "step_name Step_auto_cluster_count = ''auto_cluster_count''"
| "step_name Step_cluster = ''cluster''"
| "step_name Step_merge = ''merge''"
| "step_name Step_save = ''save''"

definition ClusteringStep_members :: "ClusteringStep list" where
  "ClusteringStep_members =
     [Step_start, Step_process_input_file, Step_load_model, Step_embed_responses,
      Step_detect_outliers, Step_auto_cluster_count, Step_cluster, Step_merge, Step_save]"

text \<open>The status union \<open>"todo" | "start" | "complete" | "error"\<close> of a progress message.\<close>

datatype ProgressStatus = Status_todo | Status_start | Status_complete | Status_error

text \<open>
  \<open>ClusteringProgressMessage\<close>, the argument type of the callback registered with
  \<open>window.progress.onClusteringUpdate\<close>. A \<open>number\<close> is modelled as a real.
\<close>

record ClusteringProgressMessage =
  step :: ClusteringStep
  status :: ProgressStatus
  timestamp :: real

text \<open>
  \<open>progressionMessages : Record<ClusteringStep, string>\<close>, as the association list of
  its properties in the order of the object literal.
\<close>

definition progressionMessages :: "(ClusteringStep \<times> string) list" where
  "progressionMessages =
     [(Step_start, ''Starting clustering process''),
      (Step_process_input_file, ''Reading input file''),
      (Step_load_model, ''Loading language model''),
      (Step_embed_responses, ''Embedding responses''),
      (Step_detect_outliers, ''Detecting outliers''),
      (Step_auto_cluster_count, ''Determining cluster count''),
      (Step_cluster, ''Clustering''),
      (Step_merge, ''Merging clusters''),
      (Step_save, ''Saving results'')]"

text \<open>
  The step sequence as the specification writes it:
  start, process_input_file, load_model, embed_responses, detect_outliers,
  auto_cluster_count, cluster, merge, save.
\<close>

definition spec_step_sequence :: "string list" where
  "spec_step_sequence =
     [''start'', ''process_input_file'', ''load_model'', ''embed_responses'',
      ''detect_outliers'', ''auto_cluster_count'', ''cluster'', ''merge'', ''save'']"

type_synonym UUID = string

text \<open>\<open>Timesteps\<close>: \<open>steps\<close> is a \<open>Record<ClusteringStep, number>\<close>, one number per step.\<close>

record Timesteps =
  ts_id :: UUID
  total_duration :: real
  steps :: "ClusteringStep \<Rightarrow> real"

record Run =
  run_id :: UUID
  run_name :: string
  run_file_path :: string
  run_output_file_path :: string
  run_assignments_file_path :: string
  run_created_at :: real
  run_file_settings :: string
  run_algorithm_settings :: string

record CurrentRunMessage =
  crm_run :: Run
  crm_timesteps :: Timesteps

text \<open>
  The entities of a clustering result. The object-valued fields of the interfaces
  (\<open>cluster\<close>, \<open>responses\<close>, \<open>result\<close>, \<open>response\<close> and the like) are the relationships that
  the identifier fields determine; the records keep the identifier fields. The merger
  statistics and the similarity pairs of a result are left out.
\<close>

record Response =
  resp_id :: UUID
  resp_text :: string
  resp_embedding :: "real list option"
  is_outlier :: bool
  resp_similarity :: "real option"
  resp_count :: nat
  cluster_id :: "UUID option"

record Cluster =
  cl_id :: UUID
  cl_index :: nat
  cl_name :: string
  cl_center :: "real list"
  cl_count :: nat
  cl_is_merger_result :: bool

record OutlierStatistic =
  os_id :: UUID
  os_similarity :: real
  os_response_id :: UUID



text \<open>The \<open>Action\<close> union: the commands a client can issue.\<close>

datatype Action =
    Set_file_path
  | Get_file_path
  | Set_file_settings
  | Set_algorithm_settings
  | Run_clustering
  | Get_runs
  | Get_current_run
  | Set_run_id
  | Reset_run_id
  | Update_run_name
  | Get_cluster_assignments
  | Get_cluster_similarities
  | Update_cluster_name
  | Delete_run
  | Get_outliers
  | Get_mergers

section \<open>The file preview page (src/main-window/pages/FilePreview.tsx)\<close>

text \<open>
  The component state of \<open>FilePreview\<close>: one field per \<open>useState\<close> hook. A value of
  type \<open>string | null\<close> is a \<open>string option\<close>; column indices are the array indices
  handed out by \<open>map\<close>, hence natural numbers.
\<close>

record FilePreviewState =
  filePath :: "string option"
  hasHeader :: bool
  delimiter :: "string option"
  selectedColumns :: "nat list"
  previewData :: "string list list"

text \<open>The \<open>FileSettings\<close> interface of src/lib/models.ts.\<close>

record FileSettings =
  fs_delimiter :: string
  fs_has_header :: bool
  fs_selected_columns :: "nat list"

datatype js_error = TypeError

definition exampleLineCount :: nat where
  "exampleLineCount = 10"

text \<open>
  \<open>displayData = hasHeader ? previewData.slice(1) : previewData.slice(0, exampleLineCount)\<close>
\<close>

definition displayData :: "FilePreviewState \<Rightarrow> string list list" where
  "displayData st =
     (if hasHeader st then drop 1 (previewData st)
      else take exampleLineCount (previewData st))"

text \<open>
  \<open>headers = hasHeader ? previewData[0] : []\<close>. Reading index 0 of an empty array gives
  \<open>undefined\<close>, which is \<open>None\<close> here.
\<close>

definition headers :: "FilePreviewState \<Rightarrow> string list option" where
  "headers st =
     (if hasHeader st
      then (case previewData st of [] \<Rightarrow> None | row # _ \<Rightarrow> Some row)
      else Some [])"

text \<open>\<open>columnCount = displayData.length > 0 ? displayData[0].length : 0\<close>\<close>

definition columnCount :: "FilePreviewState \<Rightarrow> nat" where
  "columnCount st =
     (case displayData st of [] \<Rightarrow> 0 | row # _ \<Rightarrow> length row)"

text \<open>
  \<open>toggleColumn\<close>: when the index is included, the state becomes the list filtered by
  \<open>col !== index\<close>; otherwise the index is appended.
\<close>

definition toggleColumn :: "nat \<Rightarrow> FilePreviewState \<Rightarrow> FilePreviewState" where
  "toggleColumn index st =
     (if index \<in> set (selectedColumns st)
      then st\<lparr>selectedColumns := filter (\<lambda>col. col \<noteq> index) (selectedColumns st)\<rparr>
      else st\<lparr>selectedColumns := selectedColumns st @ [index]\<rparr>)"

text \<open>
  The click handler of the "Toggle all" button:
  \<open>setSelectedColumns(selectedColumns.length === 0 ? [...Array(headers.length).keys()] : [])\<close>.
  \<open>headers.length\<close> is read only in the first branch, and raises a TypeError when
  \<open>headers\<close> is \<open>undefined\<close>.
\<close>

definition toggleAll :: "FilePreviewState \<Rightarrow> js_error + FilePreviewState" where
  "toggleAll st =
     (if length (selectedColumns st) = 0
      then (case headers st of
              None \<Rightarrow> Inl TypeError
            | Some hs \<Rightarrow> Inr (st\<lparr>selectedColumns := [0 ..< length hs]\<rparr>))
      else Inr (st\<lparr>selectedColumns := []\<rparr>))"

text \<open>
  The click handler of the "Continue" button. The button is disabled when
  \<open>selectedColumns.length <= 0\<close>, and a disabled button emits nothing (\<open>None\<close>);
  otherwise the handler passes one \<open>FileSettings\<close> object to \<open>window.file.setSettings\<close>.
  \<open>delimiter || ","\<close> takes \<open>","\<close> when the delimiter is \<open>null\<close> or the empty string.
\<close>

definition delimiterOrComma :: "string option \<Rightarrow> string" where
  "delimiterOrComma d =
     (case d of None \<Rightarrow> '','' | Some s \<Rightarrow> (if s = [] then '','' else s))"

definition continueClick :: "FilePreviewState \<Rightarrow> FileSettings option" where
  "continueClick st =
     (if length (selectedColumns st) \<le> 0 then None
      else Some \<lparr>fs_delimiter = delimiterOrComma (delimiter st),
                 fs_has_header = hasHeader st,
                 fs_selected_columns = selectedColumns st\<rparr>)"

section \<open>The results page (Results component)\<close>

text \<open>
  The component state of \<open>Results\<close>, one field per \<open>useState\<close> hook, and the calls
  made to \<open>window.database.updateRunName\<close> so far (run id and new name), which is
  how a rename leaves the component.
\<close>

record ResultsState =
  run :: "Run option"
  timesteps :: "Timesteps option"
  runName :: "string option"
  runNameInput :: "string option"
  isEditing :: bool
  isValidRunName :: bool
  updateRunName_calls :: "(UUID \<times> string option) list"

definition initialResultsState :: ResultsState where
  "initialResultsState =
     \<lparr>run = None, timesteps = None, runName = None, runNameInput = None,
      isEditing = False, isValidRunName = False, updateRunName_calls = []\<rparr>"

text \<open>
  \<open>validateRunName\<close>: \<open>!newName\<close> holds of the empty string only; \<open>length\<close> counts the
  code units of the string.
\<close>

definition validateRunName :: "string \<Rightarrow> bool" where
  "validateRunName newName =
     (if newName = [] then False
      else if length newName > 255 then False
      else True)"

text \<open>
  \<open>updateRunName\<close> returns at once unless the state flag \<open>isValidRunName\<close> is set;
  otherwise it sends the rename, stores the name and leaves the editing mode.
  \<open>run.id\<close> raises a TypeError when \<open>run\<close> is \<open>null\<close>. The callers pass the state
  \<open>runNameInput\<close>, a \<open>string | null\<close>, so the argument is a \<open>string option\<close>.
\<close>

definition updateRunName :: "string option \<Rightarrow> ResultsState \<Rightarrow> js_error + ResultsState" where
  "updateRunName newName st =
     (if \<not> isValidRunName st then Inr st
      else (case run st of
              None \<Rightarrow> Inl TypeError
            | Some r \<Rightarrow>
                Inr (st\<lparr>updateRunName_calls := updateRunName_calls st @ [(run_id r, newName)],
                        runName := newName,
                        isEditing := False\<rparr>)))"

text \<open>The listener registered with \<open>window.database.onReceiveCurrentRun\<close>.\<close>

definition onReceiveCurrentRun :: "CurrentRunMessage \<Rightarrow> ResultsState \<Rightarrow> ResultsState" where
  "onReceiveCurrentRun msg st =
     st\<lparr>run := Some (crm_run msg),
        runName := Some (run_name (crm_run msg)),
        timesteps := Some (crm_timesteps msg),
        runNameInput := Some (run_name (crm_run msg))\<rparr>"

text \<open>The click handler of the pencil button.\<close>

definition onClickEdit :: "ResultsState \<Rightarrow> ResultsState" where
  "onClickEdit st = st\<lparr>isEditing := True\<rparr>"

text \<open>The \<open>onChange\<close> handler of the name input, called with \<open>e.target.value\<close>.\<close>

definition onChangeRunNameInput :: "string \<Rightarrow> ResultsState \<Rightarrow> ResultsState" where
  "onChangeRunNameInput v st =
     st\<lparr>runNameInput := Some v, isValidRunName := validateRunName v\<rparr>"

text \<open>
  The \<open>onKeyDown\<close> handler of the name input for the Enter key, which is also what the
  Save button does on a click: \<open>updateRunName(runNameInput)\<close>.
\<close>

definition onKeyDownEnter :: "ResultsState \<Rightarrow> js_error + ResultsState" where
  "onKeyDownEnter st = updateRunName (runNameInput st) st"

text \<open>
  A rename to \<open>newName\<close> is applied when \<open>updateRunName\<close> returns a state in which the
  call \<open>window.database.updateRunName(run.id, newName)\<close> has been added and the stored
  name is \<open>newName\<close>.
\<close>

definition renameApplied :: "string \<Rightarrow> ResultsState \<Rightarrow> bool" where
  "renameApplied newName st =
     (case updateRunName (Some newName) st of
        Inl _ \<Rightarrow> False
      | Inr st' \<Rightarrow>
          (case run st of
             None \<Rightarrow> False
           | Some r \<Rightarrow>
               updateRunName_calls st' = updateRunName_calls st @ [(run_id r, Some newName)]
               \<and> runName st' = Some newName))"

section \<open>The broker side, modelled from the specification\<close>

text \<open>
  The broker, the worker and the preload script that implements the \<open>window\<close> interfaces
  are not among the source files; what follows models them from the specification.
\<close>

subsection \<open>Pipeline progress tracker\<close>

text \<open>
  Modelled from the spec: the conditions with which the broker rejects or aborts, which are
  missing from the sources. \<open>AlreadyRunning\<close> and \<open>InvalidState\<close> are the state errors of a
  command; \<open>ProtocolViolation\<close> is the protocol error of an out-of-order progress event or
  of malformed worker output.
\<close>

datatype broker_condition = AlreadyRunning | InvalidState | ProtocolViolation

text \<open>
  Modelled from the spec: the state of the progress tracker, which is missing from the
  sources. Each step carries a status of its own, and the tracker keeps the timestamp of
  each \<open>complete\<close> event.
\<close>

record Tracker =
  statuses :: "ClusteringStep \<Rightarrow> ProgressStatus"
  completed_at :: "ClusteringStep \<Rightarrow> real option"

text \<open>Modelled from the spec: the initial state of the missing tracker, all steps todo.\<close>

definition initialTracker :: Tracker where
  "initialTracker = \<lparr>statuses = (\<lambda>_. Status_todo), completed_at = (\<lambda>_. None)\<rparr>"

text \<open>
  Modelled from the spec: the step before a step in the fixed order of the missing
  tracker; the first step has none.
\<close>

fun previous_step :: "ClusteringStep \<Rightarrow> ClusteringStep option" where
  "previous_step Step_start = None"
| "previous_step Step_process_input_file = Some Step_start"
| "previous_step Step_load_model = Some Step_process_input_file"
| "previous_step Step_embed_responses = Some Step_load_model"
| "previous_step Step_detect_outliers = Some Step_embed_responses"
| "previous_step Step_auto_cluster_count = Some Step_detect_outliers"
| "previous_step Step_cluster = Some Step_auto_cluster_count"
| "previous_step Step_merge = Some Step_cluster"
| "previous_step Step_save = Some Step_merge"


text \<open>
  Modelled from the spec: the transition rule of the missing tracker. For a step the only
  legal status sequences are todo, start, complete and todo, start, error. A \<open>start\<close>
  event is accepted only for a step that is still todo and whose previous step has
  reached complete (or that is the first step); a \<open>complete\<close> or \<open>error\<close> event only for a
  step that is started. Any other event is a protocol error.
\<close>

definition accept_event :: "Tracker \<Rightarrow> ClusteringProgressMessage \<Rightarrow> broker_condition + Tracker" where
  "accept_event tr m =
     (case status m of
        Status_todo \<Rightarrow> Inl ProtocolViolation
      | Status_start \<Rightarrow>
          (if statuses tr (step m) = Status_todo
              \<and> (case previous_step (step m) of
                    None \<Rightarrow> True
                  | Some p \<Rightarrow> statuses tr p = Status_complete)
           then Inr (tr\<lparr>statuses := (statuses tr)(step m := Status_start)\<rparr>)
           else Inl ProtocolViolation)
      | Status_complete \<Rightarrow>
          (if statuses tr (step m) = Status_start
           then Inr (tr\<lparr>statuses := (statuses tr)(step m := Status_complete),
                        completed_at := (completed_at tr)(step m \<mapsto> timestamp m)\<rparr>)
           else Inl ProtocolViolation)
      | Status_error \<Rightarrow>
          (if statuses tr (step m) = Status_start
           then Inr (tr\<lparr>statuses := (statuses tr)(step m := Status_error)\<rparr>)
           else Inl ProtocolViolation))"


text \<open>
  Modelled from the spec: the terminal states of the missing tracker, which are the save
  step reaching complete and any step reaching error.
\<close>

definition is_terminal :: "Tracker \<Rightarrow> bool" where
  "is_terminal tr \<longleftrightarrow>
     statuses tr Step_save = Status_complete
     \<or> list_ex (\<lambda>s. statuses tr s = Status_error) ClusteringStep_members"


subsection \<open>Command dispatcher\<close>

text \<open>
  Modelled from the spec: what reaches the missing broker, namely a command of the client,
  a progress event of the worker, or the abnormal termination of the worker.
\<close>

datatype broker_input =
    ClientCommand Action
  | WorkerEvent ClusteringProgressMessage
  | WorkerTerminated

text \<open>
  Modelled from the spec: the state of the missing dispatcher as far as runs are concerned.
  \<open>in_flight\<close> is the single-run mutual-exclusion flag, \<open>progress\<close> the tracker of the
  active run. \<open>launched\<close> counts the runs accepted so far and numbers them, and \<open>executing\<close>
  lists the runs that were accepted and have not finished.
\<close>

record Dispatcher =
  in_flight :: bool
  executing :: "nat list"
  launched :: nat
  progress :: Tracker

text \<open>Modelled from the spec: the missing dispatcher before any command.\<close>

definition initialDispatcher :: Dispatcher where
  "initialDispatcher =
     \<lparr>in_flight = False, executing = [], launched = 0, progress = initialTracker\<rparr>"

text \<open>
  Modelled from the spec: the release of the flag by the missing dispatcher when the run
  launched last has finished.
\<close>

definition release :: "Dispatcher \<Rightarrow> Dispatcher" where
  "release d = d\<lparr>in_flight := False, executing := removeAll (launched d - 1) (executing d)\<rparr>"

text \<open>
  Modelled from the spec: abnormal termination of the worker, treated by the missing
  tracker as an error at the step that was started last.
\<close>

definition fail_started_step :: "Tracker \<Rightarrow> Tracker" where
  "fail_started_step tr =
     (case find (\<lambda>s. statuses tr s = Status_start) ClusteringStep_members of
        None \<Rightarrow> tr
      | Some s \<Rightarrow> tr\<lparr>statuses := (statuses tr)(s := Status_error)\<rparr>)"

text \<open>
  Modelled from the spec: the command handling of the missing dispatcher.
  \<open>run_clustering\<close> requires that no run is executing and is rejected with
  \<open>AlreadyRunning\<close> otherwise; on acceptance the flag is taken and the tracker is put
  into its initial state. Changing the configuration while a run executes fails with
  \<open>InvalidState\<close>. The other commands do not touch the run state.
\<close>

definition handle_command :: "Dispatcher \<Rightarrow> Action \<Rightarrow> broker_condition + Dispatcher" where
  "handle_command d a =
     (if a = Run_clustering then
        (if in_flight d then Inl AlreadyRunning
         else Inr (d\<lparr>in_flight := True,
                     executing := launched d # executing d,
                     launched := Suc (launched d),
                     progress := initialTracker\<rparr>))
      else if a \<in> {Set_file_path, Set_file_settings, Set_algorithm_settings} then
        (if in_flight d then Inl InvalidState else Inr d)
      else Inr d)"

text \<open>
  Modelled from the spec: one step of the missing broker, giving the next state and the
  condition surfaced, if any. A rejected command leaves the state as it is. A progress
  event goes to the tracker; a protocol error is fatal to the current run, and a terminal
  state of the tracker releases the flag, as does abnormal termination of the worker.
\<close>

definition broker_step :: "Dispatcher \<Rightarrow> broker_input \<Rightarrow> Dispatcher \<times> broker_condition option" where
  "broker_step d i =
     (case i of
        ClientCommand a \<Rightarrow>
          (case handle_command d a of
             Inl c \<Rightarrow> (d, Some c)
           | Inr d' \<Rightarrow> (d', None))
      | WorkerEvent m \<Rightarrow>
          (if \<not> in_flight d then (d, Some ProtocolViolation)
           else (case accept_event (progress d) m of
                   Inl _ \<Rightarrow> (release d, Some ProtocolViolation)
                 | Inr tr' \<Rightarrow>
                     (if is_terminal tr' then (release (d\<lparr>progress := tr'\<rparr>), None)
                      else (d\<lparr>progress := tr'\<rparr>, None))))
      | WorkerTerminated \<Rightarrow>
          (if in_flight d
           then (release (d\<lparr>progress := fail_started_step (progress d)\<rparr>), None)
           else (d, None)))"

text \<open>Modelled from the spec: the missing broker run over a sequence of inputs.\<close>

fun run_broker :: "Dispatcher \<Rightarrow> broker_input list \<Rightarrow> Dispatcher" where
  "run_broker d [] = d"
| "run_broker d (i # inputs) = run_broker (fst (broker_step d i)) inputs"

subsection \<open>Subscription manager\<close>

type_synonym channel = string
type_synonym listener = nat
type_synonym subscription_handle = nat

text \<open>
  Modelled from the spec: the state of the subscription manager, whose implementation
  (behind \<open>onClusteringUpdate\<close>, \<open>onReceiveCurrentRun\<close> and the other \<open>on...\<close> functions) is
  missing from the sources. It holds the active subscriptions, each with the cancellation
  handle that \<open>subscribe\<close> returned for it, and the deliveries made so far, each with the
  subscription through which it was made.
\<close>

record 'e SubscriptionManager =
  subscriptions :: "(subscription_handle \<times> channel \<times> listener) list"
  next_handle :: subscription_handle
  deliveries :: "(subscription_handle \<times> listener \<times> channel \<times> 'e) list"

text \<open>Modelled from the spec: the missing subscription manager with no listener.\<close>

definition initialSubscriptionManager :: "'e SubscriptionManager" where
  "initialSubscriptionManager = \<lparr>subscriptions = [], next_handle = 0, deliveries = []\<rparr>"

text \<open>
  Modelled from the spec: \<open>subscribe(channel, listener)\<close> of the missing subscription
  manager, which registers the listener and returns a new cancellation handle.
\<close>

definition subscribe ::
  "channel \<Rightarrow> listener \<Rightarrow> 'e SubscriptionManager \<Rightarrow> subscription_handle \<times> 'e SubscriptionManager" where
  "subscribe ch l sm =
     (next_handle sm,
      sm\<lparr>subscriptions := subscriptions sm @ [(next_handle sm, ch, l)],
         next_handle := Suc (next_handle sm)\<rparr>)"

text \<open>
  Modelled from the spec: invoking a cancellation handle of the missing subscription
  manager, which removes the subscription the handle was returned for; it cannot fail.
\<close>

definition cancel :: "subscription_handle \<Rightarrow> 'e SubscriptionManager \<Rightarrow> 'e SubscriptionManager" where
  "cancel h sm = sm\<lparr>subscriptions := filter (\<lambda>sub. fst sub \<noteq> h) (subscriptions sm)\<rparr>"

text \<open>
  Modelled from the spec: a broadcast by the missing subscription manager, delivered once
  to every current subscription of the channel (fan-out, no replay).
\<close>

definition broadcast :: "channel \<Rightarrow> 'e \<Rightarrow> 'e SubscriptionManager \<Rightarrow> 'e SubscriptionManager" where
  "broadcast ch ev sm =
     sm\<lparr>deliveries := deliveries sm
          @ map (\<lambda>sub. (fst sub, snd (snd sub), ch, ev))
                (filter (\<lambda>sub. fst (snd sub) = ch) (subscriptions sm))\<rparr>"

text \<open>Modelled from the spec: the operations on the missing subscription manager.\<close>

datatype 'e subscription_op =
    Subscribe channel listener
  | Cancel subscription_handle
  | Broadcast channel 'e

text \<open>Modelled from the spec: one operation applied to the missing subscription manager.\<close>

fun apply_op :: "'e SubscriptionManager \<Rightarrow> 'e subscription_op \<Rightarrow> 'e SubscriptionManager" where
  "apply_op sm (Subscribe ch l) = snd (subscribe ch l sm)"
| "apply_op sm (Cancel h) = cancel h sm"
| "apply_op sm (Broadcast ch ev) = broadcast ch ev sm"

text \<open>Modelled from the spec: a sequence of operations on the missing subscription manager.\<close>

fun apply_ops :: "'e SubscriptionManager \<Rightarrow> 'e subscription_op list \<Rightarrow> 'e SubscriptionManager" where
  "apply_ops sm [] = sm"
| "apply_ops sm (x # xs) = apply_ops (apply_op sm x) xs"

text \<open>
  Modelled from the spec: what the missing subscription manager has delivered through the
  subscription of a handle, in order.
\<close>

definition delivered_to ::
  "subscription_handle \<Rightarrow> 'e SubscriptionManager \<Rightarrow> (listener \<times> channel \<times> 'e) list" where
  "delivered_to h sm = map snd (filter (\<lambda>d. fst d = h) (deliveries sm))"

subsection \<open>The save step\<close>








section \<open>Invariants of the broker side\<close>



text \<open>
  The invariant of the dispatcher: the runs that execute are the run launched last when
  the flag is held, and none otherwise.
\<close>

definition single_run :: "Dispatcher \<Rightarrow> bool" where
  "single_run d \<longleftrightarrow> executing d = (if in_flight d then [launched d - 1] else [])"

text \<open>A handle that has been issued and has no subscription any more.\<close>

definition unsubscribed :: "subscription_handle \<Rightarrow> 'e SubscriptionManager \<Rightarrow> bool" where
  "unsubscribed h sm \<longleftrightarrow> h < next_handle sm \<and> h \<notin> fst ` set (subscriptions sm)"

section \<open>Properties of the file preview page\<close>

lemma length_filter_neq_distinct:
  "distinct xs \<Longrightarrow> i \<in> set xs \<Longrightarrow> length (filter (\<lambda>col. col \<noteq> i) xs) + 1 = length xs"
proof (induction xs)
  case Nil
  then show ?case by simp
next
  case (Cons x xs)
  show ?case
  proof (cases "x = i")
    case True
    with Cons.prems have "i \<notin> set xs" by simp
    then have "filter (\<lambda>col. col \<noteq> i) xs = xs"
      by (auto simp: filter_id_conv)
    with True show ?thesis by simp
  next
    case False
    with Cons show ?thesis by simp
  qed
qed

text \<open>
  C8. Whenever the Continue action emits file settings, the emitted delimiter is a
  non-empty string: it is \<open>","\<close> when the delimiter state is \<open>null\<close> or empty, and the
  delimiter state itself otherwise. The other two fields are the state's.
\<close>

theorem continue_delimiter_nonempty:
  assumes "continueClick st = Some fs"
  shows "fs_delimiter fs \<noteq> []
       \<and> (delimiter st = None \<or> delimiter st = Some [] \<longrightarrow> fs_delimiter fs = '','')
       \<and> (\<forall>d. delimiter st = Some d \<and> d \<noteq> [] \<longrightarrow> fs_delimiter fs = d)
       \<and> fs_has_header fs = hasHeader st
       \<and> fs_selected_columns fs = selectedColumns st"
  using assms
  by (auto simp: continueClick_def delimiterOrComma_def split: if_splits option.splits)

theorem continue_delimiter_nonempty_witness:
  "continueClick \<lparr>filePath = Some ''a.csv'', hasHeader = True, delimiter = Some [],
                  selectedColumns = [1], previewData = []\<rparr>
     = Some \<lparr>fs_delimiter = '','', fs_has_header = True, fs_selected_columns = [1]\<rparr>
   \<and> fs_delimiter \<lparr>fs_delimiter = '','', fs_has_header = True, fs_selected_columns = [1]\<rparr> \<noteq> []"
proof -
  let ?st = "\<lparr>filePath = Some ''a.csv'', hasHeader = True, delimiter = Some [],
              selectedColumns = [1], previewData = []\<rparr>"
  let ?fs = "\<lparr>fs_delimiter = '','', fs_has_header = True, fs_selected_columns = [1]\<rparr>"
  have h: "continueClick ?st = Some ?fs"
    by (simp add: continueClick_def delimiterOrComma_def)
  from continue_delimiter_nonempty [OF h] have "fs_delimiter ?fs \<noteq> []" by blast
  with h show ?thesis by blast
qed

text \<open>
  C9. Without a header row and with nothing selected, "Toggle all" succeeds and leaves
  the selection empty, because it selects the indices below \<open>headers.length\<close>, which is 0;
  so whenever the file has data columns, the result is not the list of all of them.
\<close>

theorem toggle_all_without_header:
  assumes "\<not> hasHeader st" and "selectedColumns st = []"
  shows "headers st = Some []
       \<and> toggleAll st = Inr st
       \<and> (\<forall>st'. toggleAll st = Inr st' \<longrightarrow> selectedColumns st' = [])
       \<and> (0 < columnCount st \<longrightarrow>
            (\<forall>st'. toggleAll st = Inr st' \<longrightarrow> selectedColumns st' \<noteq> [0 ..< columnCount st]))"
proof -
  have hs: "headers st = Some []"
    using assms(1) by (simp add: headers_def)
  have "st\<lparr>selectedColumns := []\<rparr> = st"
    using assms(2) by simp
  then have ta: "toggleAll st = Inr st"
    using assms(2) hs by (simp add: toggleAll_def)
  have ne: "0 < columnCount st \<Longrightarrow> [] \<noteq> [0 ..< columnCount st]"
    by (metis length_upt list.size(3) less_numeral_extra(3) diff_zero)
  show ?thesis
    using hs ta assms(2) ne by auto
qed

theorem toggle_all_without_header_witness:
  "toggleAll \<lparr>filePath = Some ''a.csv'', hasHeader = False, delimiter = Some '','',
              selectedColumns = [], previewData = [[''x'', ''y''], [''u'', ''v'']]\<rparr>
     = Inr \<lparr>filePath = Some ''a.csv'', hasHeader = False, delimiter = Some '','',
            selectedColumns = [], previewData = [[''x'', ''y''], [''u'', ''v'']]\<rparr>
   \<and> columnCount \<lparr>filePath = Some ''a.csv'', hasHeader = False, delimiter = Some '','',
              selectedColumns = [], previewData = [[''x'', ''y''], [''u'', ''v'']]\<rparr> = 2"
proof -
  let ?st = "\<lparr>filePath = Some ''a.csv'', hasHeader = False, delimiter = Some '','',
              selectedColumns = [], previewData = [[''x'', ''y''], [''u'', ''v'']]\<rparr>"
  have a: "\<not> hasHeader ?st" by simp
  have b: "selectedColumns ?st = []" by simp
  have c: "columnCount ?st = 2"
    by (simp add: columnCount_def displayData_def exampleLineCount_def)
  from toggle_all_without_header [OF a b] have "toggleAll ?st = Inr ?st" by blast
  with c show ?thesis by blast
qed

text \<open>
  C10. On a duplicate-free selection, \<open>toggleColumn\<close> removes the index when it is
  present and appends it once otherwise; one application keeps the selection
  duplicate-free, and two applications give back the same set of indices.
\<close>

theorem toggle_column_twice:
  assumes "distinct (selectedColumns st)"
  shows "set (selectedColumns (toggleColumn i (toggleColumn i st))) = set (selectedColumns st)
       \<and> distinct (selectedColumns (toggleColumn i st))
       \<and> (i \<in> set (selectedColumns st) \<longrightarrow>
            set (selectedColumns (toggleColumn i st)) = set (selectedColumns st) - {i}
          \<and> length (selectedColumns (toggleColumn i st)) + 1 = length (selectedColumns st))
       \<and> (i \<notin> set (selectedColumns st) \<longrightarrow>
            selectedColumns (toggleColumn i st) = selectedColumns st @ [i])"
  using assms length_filter_neq_distinct [of "selectedColumns st" i]
  by (auto simp: toggleColumn_def)

theorem toggle_column_twice_witness:
  "distinct (selectedColumns \<lparr>filePath = None, hasHeader = True, delimiter = None,
                              selectedColumns = [2, 0, 1], previewData = []\<rparr>)
   \<and> selectedColumns (toggleColumn 0 \<lparr>filePath = None, hasHeader = True, delimiter = None,
                              selectedColumns = [2, 0, 1], previewData = []\<rparr>) = [2, 1]
   \<and> set (selectedColumns (toggleColumn 0 (toggleColumn 0
            \<lparr>filePath = None, hasHeader = True, delimiter = None,
             selectedColumns = [2, 0, 1], previewData = []\<rparr>))) = {0, 1, 2}"
proof -
  let ?st = "\<lparr>filePath = None, hasHeader = True, delimiter = None,
              selectedColumns = [2, 0, 1::nat], previewData = []\<rparr>"
  have d: "distinct (selectedColumns ?st)" by simp
  have one: "selectedColumns (toggleColumn 0 ?st) = [2, 1]"
    by (simp add: toggleColumn_def)
  from toggle_column_twice [OF d, of 0]
  have "set (selectedColumns (toggleColumn 0 (toggleColumn 0 ?st))) = set (selectedColumns ?st)"
    by blast
  then have "set (selectedColumns (toggleColumn 0 (toggleColumn 0 ?st))) = {0, 1, 2}"
    by auto
  with d one show ?thesis by blast
qed

section \<open>Properties of the shared models\<close>

text \<open>
  C2. The step catalog has exactly nine steps in the order start, process_input_file,
  load_model, embed_responses, detect_outliers, auto_cluster_count, cluster, merge, save:
  the members of the step type, in declaration order, carry these nine names; every value
  of the step type is one of them; and the keys of the per-step message table are the
  same nine, in the same order.
\<close>

theorem step_catalog_nine:
  "map step_name ClusteringStep_members = spec_step_sequence
   \<and> length spec_step_sequence = 9
   \<and> distinct spec_step_sequence
   \<and> set ClusteringStep_members = UNIV
   \<and> range step_name = set spec_step_sequence
   \<and> map fst progressionMessages = ClusteringStep_members"
proof -
  have names: "map step_name ClusteringStep_members = spec_step_sequence"
    by (simp add: ClusteringStep_members_def spec_step_sequence_def)
  have len: "length spec_step_sequence = 9"
    by (simp add: spec_step_sequence_def)
  have dist: "distinct spec_step_sequence"
    by (simp add: spec_step_sequence_def)
  have all: "set ClusteringStep_members = UNIV"
  proof -
    have "s \<in> set ClusteringStep_members" for s
      by (cases s) (simp_all add: ClusteringStep_members_def)
    then show ?thesis by blast
  qed
  have "range step_name = step_name ` set ClusteringStep_members"
    using all by simp
  also have "\<dots> = set (map step_name ClusteringStep_members)"
    by simp
  finally have rng: "range step_name = set spec_step_sequence"
    using names by simp
  have keys: "map fst progressionMessages = ClusteringStep_members"
    by (simp add: progressionMessages_def ClusteringStep_members_def)
  from names len dist all rng keys show ?thesis by blast
qed

section \<open>Properties of the results page\<close>

text \<open>
  C5, as the code has it. \<open>validateRunName\<close> accepts exactly the non-empty names of at
  most 255 code units. \<open>updateRunName\<close> is guarded by the flag \<open>isValidRunName\<close> of the
  component state: with the flag unset it changes nothing, with the flag set it applies
  the rename. The flag is the validation of the value typed last, so for a name \<open>s\<close> that
  has just been typed into the input, Enter applies the rename if and only if \<open>s\<close> is
  non-empty and at most 255 long, and otherwise the stored name and the calls made are
  unchanged.
\<close>

theorem rename_validation:
  "(validateRunName s \<longleftrightarrow> s \<noteq> [] \<and> length s \<le> 255)
   \<and> (\<not> isValidRunName st \<longrightarrow> updateRunName (Some s) st = Inr st)
   \<and> (run st \<noteq> None \<longrightarrow> (renameApplied s st \<longleftrightarrow> isValidRunName st))
   \<and> (run st \<noteq> None \<longrightarrow>
        (renameApplied s (onChangeRunNameInput s st) \<longleftrightarrow> s \<noteq> [] \<and> length s \<le> 255))
   \<and> onKeyDownEnter (onChangeRunNameInput s st)
        = updateRunName (Some s) (onChangeRunNameInput s st)
   \<and> (\<not> (s \<noteq> [] \<and> length s \<le> 255) \<longrightarrow>
        onKeyDownEnter (onChangeRunNameInput s st) = Inr (onChangeRunNameInput s st)
        \<and> runName (onChangeRunNameInput s st) = runName st
        \<and> updateRunName_calls (onChangeRunNameInput s st) = updateRunName_calls st)"
proof -
  have v: "validateRunName s \<longleftrightarrow> s \<noteq> [] \<and> length s \<le> 255"
    by (auto simp: validateRunName_def)
  have r: "\<not> isValidRunName st \<longrightarrow> updateRunName (Some s) st = Inr st"
    by (simp add: updateRunName_def)
  have a: "renameApplied s st' \<longleftrightarrow> isValidRunName st'" if "run st' \<noteq> None" for st'
    using that by (auto simp: renameApplied_def updateRunName_def split: option.splits)
  have run_same: "run (onChangeRunNameInput s st) = run st"
    by (simp add: onChangeRunNameInput_def)
  have flag: "isValidRunName (onChangeRunNameInput s st) = validateRunName s"
    by (simp add: onChangeRunNameInput_def)
  have t: "run st \<noteq> None \<longrightarrow>
        (renameApplied s (onChangeRunNameInput s st) \<longleftrightarrow> s \<noteq> [] \<and> length s \<le> 255)"
    using a [of "onChangeRunNameInput s st"] run_same flag v by simp
  have e: "onKeyDownEnter (onChangeRunNameInput s st)
             = updateRunName (Some s) (onChangeRunNameInput s st)"
    by (simp add: onKeyDownEnter_def onChangeRunNameInput_def)
  have n: "\<not> (s \<noteq> [] \<and> length s \<le> 255) \<longrightarrow>
        onKeyDownEnter (onChangeRunNameInput s st) = Inr (onChangeRunNameInput s st)
        \<and> runName (onChangeRunNameInput s st) = runName st
        \<and> updateRunName_calls (onChangeRunNameInput s st) = updateRunName_calls st"
  proof
    assume "\<not> (s \<noteq> [] \<and> length s \<le> 255)"
    with v flag have "\<not> isValidRunName (onChangeRunNameInput s st)" by simp
    then have "updateRunName (Some s) (onChangeRunNameInput s st)
                 = Inr (onChangeRunNameInput s st)"
      by (simp add: updateRunName_def)
    with e show "onKeyDownEnter (onChangeRunNameInput s st) = Inr (onChangeRunNameInput s st)
        \<and> runName (onChangeRunNameInput s st) = runName st
        \<and> updateRunName_calls (onChangeRunNameInput s st) = updateRunName_calls st"
      by (simp add: onChangeRunNameInput_def)
  qed
  from v r a [of st] t e n show ?thesis by blast
qed

theorem rename_validation_witness:
  "run (onReceiveCurrentRun
         \<lparr>crm_run = \<lparr>run_id = ''r1'', run_name = ''abc'', run_file_path = ''a.csv'',
                     run_output_file_path = ''out.csv'', run_assignments_file_path = ''as.csv'',
                     run_created_at = 0, run_file_settings = [], run_algorithm_settings = []\<rparr>,
          crm_timesteps = \<lparr>ts_id = ''t1'', total_duration = 0, steps = (\<lambda>_. 0)\<rparr>\<rparr>
         initialResultsState) \<noteq> None
   \<and> renameApplied ''abcd'' (onChangeRunNameInput ''abcd'' (onReceiveCurrentRun
         \<lparr>crm_run = \<lparr>run_id = ''r1'', run_name = ''abc'', run_file_path = ''a.csv'',
                     run_output_file_path = ''out.csv'', run_assignments_file_path = ''as.csv'',
                     run_created_at = 0, run_file_settings = [], run_algorithm_settings = []\<rparr>,
          crm_timesteps = \<lparr>ts_id = ''t1'', total_duration = 0, steps = (\<lambda>_. 0)\<rparr>\<rparr>
         initialResultsState))
   \<and> validateRunName (replicate 255 (CHR ''a''))
   \<and> \<not> validateRunName (replicate 256 (CHR ''a''))
   \<and> \<not> validateRunName []
   \<and> onKeyDownEnter (onChangeRunNameInput [] initialResultsState)
       = Inr (onChangeRunNameInput [] initialResultsState)"
proof -
  let ?st = "onReceiveCurrentRun
         \<lparr>crm_run = \<lparr>run_id = ''r1'', run_name = ''abc'', run_file_path = ''a.csv'',
                     run_output_file_path = ''out.csv'', run_assignments_file_path = ''as.csv'',
                     run_created_at = 0, run_file_settings = [], run_algorithm_settings = []\<rparr>,
          crm_timesteps = \<lparr>ts_id = ''t1'', total_duration = 0, steps = (\<lambda>_. 0)\<rparr>\<rparr>
         initialResultsState"
  have r: "run ?st \<noteq> None"
    by (simp add: onReceiveCurrentRun_def)
  have "''abcd'' \<noteq> [] \<and> length ''abcd'' \<le> 255" by simp
  with r rename_validation [of "''abcd''" ?st]
  have a: "renameApplied ''abcd'' (onChangeRunNameInput ''abcd'' ?st)" by blast
  have b: "validateRunName (replicate 255 (CHR ''a''))"
    using rename_validation [of "replicate 255 (CHR ''a'')" initialResultsState] by simp
  have c: "\<not> validateRunName (replicate 256 (CHR ''a''))"
    using rename_validation [of "replicate 256 (CHR ''a'')" initialResultsState] by simp
  have d: "\<not> validateRunName []"
    using rename_validation [of "[]" initialResultsState] by simp
  have "\<not> (([]::string) \<noteq> [] \<and> length ([]::string) \<le> 255)" by simp
  with rename_validation [of "[]" initialResultsState]
  have e: "onKeyDownEnter (onChangeRunNameInput [] initialResultsState)
       = Inr (onChangeRunNameInput [] initialResultsState)"
    by blast
  from r a b c d e show ?thesis by blast
qed

text \<open>
  C5 in its general form, for every string in every state of the page, fails where the
  flag is stale. After a run named "abc" has
  been received and the pencil button clicked, the input holds "abc", which is non-empty
  and short enough, while \<open>isValidRunName\<close> still has its initial value: the rename to
  "abc" is not applied, and Enter leaves the state as it is.
\<close>

theorem rename_stale_flag_counterexample:
  "\<not> (renameApplied ''abc'' (onClickEdit (onReceiveCurrentRun
         \<lparr>crm_run = \<lparr>run_id = ''r1'', run_name = ''abc'', run_file_path = ''a.csv'',
                     run_output_file_path = ''out.csv'', run_assignments_file_path = ''as.csv'',
                     run_created_at = 0, run_file_settings = [], run_algorithm_settings = []\<rparr>,
          crm_timesteps = \<lparr>ts_id = ''t1'', total_duration = 0, steps = (\<lambda>_. 0)\<rparr>\<rparr>
         initialResultsState))
        \<longleftrightarrow> ''abc'' \<noteq> [] \<and> length ''abc'' \<le> 255)
   \<and> runNameInput (onClickEdit (onReceiveCurrentRun
         \<lparr>crm_run = \<lparr>run_id = ''r1'', run_name = ''abc'', run_file_path = ''a.csv'',
                     run_output_file_path = ''out.csv'', run_assignments_file_path = ''as.csv'',
                     run_created_at = 0, run_file_settings = [], run_algorithm_settings = []\<rparr>,
          crm_timesteps = \<lparr>ts_id = ''t1'', total_duration = 0, steps = (\<lambda>_. 0)\<rparr>\<rparr>
         initialResultsState)) = Some ''abc''
   \<and> onKeyDownEnter (onClickEdit (onReceiveCurrentRun
         \<lparr>crm_run = \<lparr>run_id = ''r1'', run_name = ''abc'', run_file_path = ''a.csv'',
                     run_output_file_path = ''out.csv'', run_assignments_file_path = ''as.csv'',
                     run_created_at = 0, run_file_settings = [], run_algorithm_settings = []\<rparr>,
          crm_timesteps = \<lparr>ts_id = ''t1'', total_duration = 0, steps = (\<lambda>_. 0)\<rparr>\<rparr>
         initialResultsState))
       = Inr (onClickEdit (onReceiveCurrentRun
         \<lparr>crm_run = \<lparr>run_id = ''r1'', run_name = ''abc'', run_file_path = ''a.csv'',
                     run_output_file_path = ''out.csv'', run_assignments_file_path = ''as.csv'',
                     run_created_at = 0, run_file_settings = [], run_algorithm_settings = []\<rparr>,
          crm_timesteps = \<lparr>ts_id = ''t1'', total_duration = 0, steps = (\<lambda>_. 0)\<rparr>\<rparr>
         initialResultsState))"
  by (simp add: renameApplied_def updateRunName_def onKeyDownEnter_def onClickEdit_def
      onReceiveCurrentRun_def initialResultsState_def)

section \<open>Properties of the progress tracker\<close>


























section \<open>Properties of the command dispatcher\<close>

lemma single_run_initial: "single_run initialDispatcher"
  by (simp add: single_run_def initialDispatcher_def)

lemma single_run_release: "single_run d \<Longrightarrow> single_run (release d)"
  by (auto simp: single_run_def release_def)

lemma single_run_progress: "single_run (d\<lparr>progress := tr\<rparr>) = single_run d"
  by (simp add: single_run_def)

lemma single_run_command:
  "single_run d \<Longrightarrow> handle_command d a = Inr d' \<Longrightarrow> single_run d'"
  by (auto simp: single_run_def handle_command_def split: if_splits)

lemma single_run_step: "single_run d \<Longrightarrow> single_run (fst (broker_step d i))"
proof (cases i)
  case (ClientCommand a)
  assume "single_run d"
  then show ?thesis
    using ClientCommand single_run_command [of d a]
    by (auto simp: broker_step_def split: sum.splits)
next
  case (WorkerEvent m)
  assume "single_run d"
  then show ?thesis
    using WorkerEvent
    by (auto simp: broker_step_def single_run_release single_run_progress split: sum.splits)
next
  case WorkerTerminated
  assume "single_run d"
  then show ?thesis
    using WorkerTerminated
    by (auto simp: broker_step_def single_run_release single_run_progress)
qed

lemma single_run_broker: "single_run d \<Longrightarrow> single_run (run_broker d inputs)"
  by (induction inputs arbitrary: d) (simp_all add: single_run_step)

lemma run_broker_append:
  "run_broker d (xs @ ys) = run_broker (run_broker d xs) ys"
  by (induction xs arbitrary: d) simp_all

text \<open>
  C1. After any sequence of commands and worker events, at most one run executes, and a
  run executes exactly when the in-flight flag is held. While the flag is held,
  \<open>run_clustering\<close> is rejected with \<open>AlreadyRunning\<close> and leaves the state of the broker,
  the progress of the active run included, as it is: the sequence with the rejected
  command behaves as the sequence without it.
\<close>

theorem single_run_in_flight:
  "length (executing (run_broker initialDispatcher inputs)) \<le> 1
   \<and> (in_flight (run_broker initialDispatcher inputs)
        \<longleftrightarrow> executing (run_broker initialDispatcher inputs) \<noteq> [])
   \<and> (in_flight (run_broker initialDispatcher inputs) \<longrightarrow>
        handle_command (run_broker initialDispatcher inputs) Run_clustering = Inl AlreadyRunning
        \<and> broker_step (run_broker initialDispatcher inputs) (ClientCommand Run_clustering)
            = (run_broker initialDispatcher inputs, Some AlreadyRunning)
        \<and> run_broker initialDispatcher (inputs @ ClientCommand Run_clustering # later)
            = run_broker initialDispatcher (inputs @ later))"
proof -
  let ?d = "run_broker initialDispatcher inputs"
  have "single_run ?d" using single_run_initial by (rule single_run_broker)
  then have a: "length (executing ?d) \<le> 1" and b: "in_flight ?d \<longleftrightarrow> executing ?d \<noteq> []"
    by (auto simp: single_run_def split: if_splits)
  have c: "handle_command ?d Run_clustering = Inl AlreadyRunning" if "in_flight ?d"
    using that by (simp add: handle_command_def)
  then have d: "broker_step ?d (ClientCommand Run_clustering) = (?d, Some AlreadyRunning)"
    if "in_flight ?d"
    using that by (simp add: broker_step_def)
  then have e: "run_broker initialDispatcher (inputs @ ClientCommand Run_clustering # later)
            = run_broker initialDispatcher (inputs @ later)" if "in_flight ?d"
    using that by (simp add: run_broker_append)
  from a b c d e show ?thesis by blast
qed

theorem single_run_in_flight_witness:
  "in_flight (run_broker initialDispatcher
      [ClientCommand Run_clustering,
       WorkerEvent \<lparr>step = Step_start, status = Status_start, timestamp = 1\<rparr>])
   \<and> executing (run_broker initialDispatcher
      [ClientCommand Run_clustering,
       WorkerEvent \<lparr>step = Step_start, status = Status_start, timestamp = 1\<rparr>]) = [0]
   \<and> broker_step (run_broker initialDispatcher
      [ClientCommand Run_clustering,
       WorkerEvent \<lparr>step = Step_start, status = Status_start, timestamp = 1\<rparr>])
      (ClientCommand Run_clustering)
     = (run_broker initialDispatcher
      [ClientCommand Run_clustering,
       WorkerEvent \<lparr>step = Step_start, status = Status_start, timestamp = 1\<rparr>],
        Some AlreadyRunning)"
proof -
  let ?inputs = "[ClientCommand Run_clustering,
       WorkerEvent \<lparr>step = Step_start, status = Status_start, timestamp = 1\<rparr>]"
  have f: "in_flight (run_broker initialDispatcher ?inputs)"
    by (simp add: broker_step_def handle_command_def initialDispatcher_def accept_event_def
        initialTracker_def is_terminal_def ClusteringStep_members_def)
  have e: "executing (run_broker initialDispatcher ?inputs) = [0]"
    by (simp add: broker_step_def handle_command_def initialDispatcher_def accept_event_def
        initialTracker_def is_terminal_def ClusteringStep_members_def)
  from f single_run_in_flight [of ?inputs]
  have "broker_step (run_broker initialDispatcher ?inputs) (ClientCommand Run_clustering)
     = (run_broker initialDispatcher ?inputs, Some AlreadyRunning)"
    by blast
  with f e show ?thesis by blast
qed

section \<open>Properties of the subscription manager\<close>

lemma cancel_idem: "cancel h (cancel h sm) = cancel h sm"
  by (simp add: cancel_def)

lemma next_handle_op: "next_handle sm \<le> next_handle (apply_op sm x)"
  by (cases x) (simp_all add: subscribe_def cancel_def broadcast_def)

lemma next_handle_ops: "next_handle sm \<le> next_handle (apply_ops sm xs)"
proof (induction xs arbitrary: sm)
  case Nil
  then show ?case by simp
next
  case (Cons x xs)
  have "next_handle sm \<le> next_handle (apply_op sm x)" by (rule next_handle_op)
  also have "\<dots> \<le> next_handle (apply_ops (apply_op sm x) xs)" by (rule Cons.IH)
  finally show ?case by simp
qed

lemma unsubscribed_op:
  assumes "unsubscribed h sm"
  shows "unsubscribed h (apply_op sm x) \<and> delivered_to h (apply_op sm x) = delivered_to h sm"
proof (cases x)
  case (Subscribe ch l)
  with assms show ?thesis
    by (auto simp: unsubscribed_def subscribe_def delivered_to_def)
next
  case (Cancel h')
  with assms show ?thesis
    by (auto simp: unsubscribed_def cancel_def delivered_to_def)
next
  case (Broadcast ch ev)
  have "filter (\<lambda>d. fst d = h) (map (\<lambda>sub. (fst sub, snd (snd sub), ch, ev))
                (filter (\<lambda>sub. fst (snd sub) = ch) (subscriptions sm))) = []"
    using assms by (force simp: unsubscribed_def filter_empty_conv)
  with Broadcast assms show ?thesis
    by (simp add: unsubscribed_def broadcast_def delivered_to_def)
qed

lemma unsubscribed_ops:
  "unsubscribed h sm \<Longrightarrow> delivered_to h (apply_ops sm xs) = delivered_to h sm"
proof (induction xs arbitrary: sm)
  case Nil
  then show ?case by simp
next
  case (Cons x xs)
  from unsubscribed_op [OF Cons.prems, of x] Cons.IH [of "apply_op sm x"]
  show ?case by simp
qed

lemma cancel_unsubscribed: "h < next_handle sm \<Longrightarrow> unsubscribed h (cancel h sm)"
  by (auto simp: unsubscribed_def cancel_def)

lemma apply_ops_append:
  "apply_ops sm (xs @ ys) = apply_ops (apply_ops sm xs) ys"
  by (induction xs arbitrary: sm) simp_all

text \<open>
  C6. Let \<open>h\<close> be the cancellation handle that \<open>subscribe\<close> returned for a listener on a
  channel, at any point of the manager's life. Whatever happens in between, invoking \<open>h\<close>
  twice leaves the manager in the state in which invoking it once leaves it, so the second
  invocation has no effect and no error; and after the first invocation nothing more is
  delivered through that subscription, whatever is broadcast, subscribed or cancelled
  later.
\<close>

theorem cancel_idempotent:
  assumes "subscribe ch l (apply_ops initialSubscriptionManager before) = (h, sm)"
  shows "cancel h (cancel h (apply_ops sm between)) = cancel h (apply_ops sm between)
       \<and> apply_ops sm (between @ Cancel h # Cancel h # later)
           = apply_ops sm (between @ Cancel h # later)
       \<and> delivered_to h (apply_ops sm (between @ Cancel h # later))
           = delivered_to h (apply_ops sm between)"
proof -
  let ?sm2 = "apply_ops sm between"
  have "h < next_handle sm"
    using assms by (auto simp: subscribe_def)
  also have "\<dots> \<le> next_handle ?sm2"
    by (rule next_handle_ops)
  finally have "unsubscribed h (cancel h ?sm2)" by (rule cancel_unsubscribed)
  then have "delivered_to h (apply_ops (cancel h ?sm2) later) = delivered_to h (cancel h ?sm2)"
    by (rule unsubscribed_ops)
  then have "delivered_to h (apply_ops sm (between @ Cancel h # later)) = delivered_to h ?sm2"
    by (simp add: apply_ops_append delivered_to_def cancel_def)
  then show ?thesis by (simp add: apply_ops_append cancel_idem)
qed

theorem cancel_idempotent_witness:
  "subscribe ''cluster-progress'' 7 (apply_ops initialSubscriptionManager [])
     = (0, \<lparr>subscriptions = [(0, ''cluster-progress'', 7)], next_handle = 1,
            deliveries = ([] :: (nat \<times> nat \<times> string \<times> string) list)\<rparr>)
   \<and> delivered_to 0 (apply_ops
        \<lparr>subscriptions = [(0, ''cluster-progress'', 7)], next_handle = 1,
         deliveries = ([] :: (nat \<times> nat \<times> string \<times> string) list)\<rparr>
        [Broadcast ''cluster-progress'' ''e1'', Cancel 0, Cancel 0,
         Broadcast ''cluster-progress'' ''e2''])
     = [(7, ''cluster-progress'', ''e1'')]"
proof -
  let ?sm = "\<lparr>subscriptions = [(0, ''cluster-progress'', 7)], next_handle = 1,
         deliveries = ([] :: (nat \<times> nat \<times> string \<times> string) list)\<rparr>"
  have s: "subscribe ''cluster-progress'' 7 (apply_ops initialSubscriptionManager []) = (0, ?sm)"
    by (simp add: subscribe_def initialSubscriptionManager_def)
  from cancel_idempotent [OF s, of "[Broadcast ''cluster-progress'' ''e1'']"
      "[Cancel 0, Broadcast ''cluster-progress'' ''e2'']"]
  have "delivered_to 0 (apply_ops ?sm
          ([Broadcast ''cluster-progress'' ''e1''] @ Cancel 0 #
           [Cancel 0, Broadcast ''cluster-progress'' ''e2'']))
        = delivered_to 0 (apply_ops ?sm [Broadcast ''cluster-progress'' ''e1''])"
    by blast
  then have "delivered_to 0 (apply_ops ?sm
        [Broadcast ''cluster-progress'' ''e1'', Cancel 0, Cancel 0,
         Broadcast ''cluster-progress'' ''e2''])
     = [(7, ''cluster-progress'', ''e1'')]"
    by (simp add: broadcast_def delivered_to_def)
  with s show ?thesis by blast
qed

end
